theory Spec2Isabelle
  imports Main
begin

section \<open>The anchored popover component (assets/anchored-popover.js)\<close>

text \<open>
  The component is one class, \<open>AnchoredPopoverComponent\<close>, with a private
  \<open>#updatePosition\<close>, a private debounced \<open>#resizeListener\<close>, and the two
  lifecycle callbacks. Every function below is a state transformer on one widget
  instance together with the part of the page it touches. Numbers are kept abstract
  (\<open>'n\<close>, with the subtraction of the type class \<open>minus\<close>): the code only ever
  subtracts two of them and renders the result with a template literal, which is the
  parameter \<open>toStr\<close> of the functions below.
\<close>

subsection \<open>Data\<close>

text \<open>The four fields of the \<open>DOMRect\<close> that the code reads.\<close>

record 'n DOMRect =
  rect_top :: 'n
  rect_right :: 'n
  rect_bottom :: 'n
  rect_left :: 'n

text \<open>
  Every call the component makes on the popover, on \<open>window\<close> or on the scheduler, in the
  order in which it is made.
\<close>

datatype effect =
    SetProperty string string
  | AddResizeListener
  | RemoveResizeListener
  | AddToggleListener
  | RequestIdleCallback
  | HidePopover

text \<open>
  The widget and its surroundings.
  \<^item> \<open>refs_popover\<close>, \<open>refs_trigger\<close>: whether \<open>this.refs.popover\<close> and
    \<open>this.refs.trigger\<close> are elements (truthy) or \<open>undefined\<close>;
  \<^item> \<open>boundingClientRect\<close>: what \<open>trigger.getBoundingClientRect()\<close> returns now;
  \<^item> \<open>innerWidth\<close>, \<open>innerHeight\<close>: the fields of \<open>window\<close>;
  \<^item> \<open>closeOnResize\<close>: \<open>this.dataset.closeOnResize\<close>, \<open>None\<close> for \<open>undefined\<close>
    (no \<open>data-close-on-resize\<close> attribute), \<open>Some v\<close> for the attribute's value;
  \<^item> \<open>style\<close>: the custom properties of \<open>popover.style\<close>;
  \<^item> \<open>popover_open\<close>: \<open>popover.matches(':popover-open')\<close>;
  \<^item> \<open>resize_listening\<close>: whether \<open>#resizeListener\<close> is registered on \<open>window\<close> for
    \<open>resize\<close> (registering the same function twice registers it once);
  \<^item> \<open>toggle_listeners\<close>: how many \<open>beforetoggle\<close> closures \<open>connectedCallback\<close> has put
    on the popover (each call creates a new closure, and none is ever removed);
  \<^item> \<open>idle_queue\<close>: the idle callbacks requested and not yet run;
  \<^item> \<open>timeout\<close>, \<open>now\<close>: the pending timer of the debounced function (the time at which
    it is due) and the clock, in milliseconds;
  \<^item> \<open>effects\<close>: the calls made so far.
\<close>

record 'n widget =
  refs_popover :: bool
  refs_trigger :: bool
  boundingClientRect :: "'n DOMRect"
  innerWidth :: 'n
  innerHeight :: 'n
  closeOnResize :: "string option"
  style :: "string \<rightharpoonup> string"
  popover_open :: bool
  resize_listening :: bool
  toggle_listeners :: nat
  idle_queue :: nat
  timeout :: "nat option"
  now :: nat
  effects :: "effect list"

subsection \<open>Platform calls\<close>

text \<open>\<open>popover.style.setProperty(name, value)\<close>.\<close>

definition setProperty :: "string \<Rightarrow> string \<Rightarrow> 'n widget \<Rightarrow> 'n widget" where
  "setProperty name v w =
     w\<lparr>style := (style w)(name \<mapsto> v), effects := effects w @ [SetProperty name v]\<rparr>"

text \<open>\<open>window.addEventListener('resize', this.#resizeListener)\<close> and its removal.\<close>

definition addEventListener :: "'n widget \<Rightarrow> 'n widget" where
  "addEventListener w =
     w\<lparr>resize_listening := True, effects := effects w @ [AddResizeListener]\<rparr>"

definition removeEventListener :: "'n widget \<Rightarrow> 'n widget" where
  "removeEventListener w =
     w\<lparr>resize_listening := False, effects := effects w @ [RemoveResizeListener]\<rparr>"

text \<open>JavaScript's \<open>ToBoolean\<close> on \<open>this.dataset.closeOnResize\<close>: \<open>undefined\<close> and the
  empty string are falsy, every other string is truthy.\<close>

definition truthy :: "string option \<Rightarrow> bool" where
  "truthy v = (case v of None \<Rightarrow> False | Some s \<Rightarrow> s \<noteq> [])"

subsection \<open>\<open>#updatePosition\<close>\<close>

text \<open>
  The function is \<open>async\<close> and has no \<open>await\<close>: its body runs to the end inside the call.
\<close>

definition updatePosition :: "('n::minus \<Rightarrow> string) \<Rightarrow> 'n widget \<Rightarrow> 'n widget" where
  "updatePosition toStr w =
     (if \<not> refs_popover w \<or> \<not> refs_trigger w then w
      else
        let positions = boundingClientRect w;
            w1 = setProperty ''--anchor-top'' (toStr (rect_top positions)) w;
            w2 = setProperty ''--anchor-right'' (toStr (innerWidth w1 - rect_right positions)) w1;
            w3 = setProperty ''--anchor-bottom'' (toStr (innerHeight w2 - rect_bottom positions)) w2
        in setProperty ''--anchor-left'' (toStr (rect_left positions)) w3)"

subsection \<open>The \<open>beforetoggle\<close> listener of \<open>connectedCallback\<close>\<close>

definition beforetoggle_listener ::
  "('n::minus \<Rightarrow> string) \<Rightarrow> string \<Rightarrow> 'n widget \<Rightarrow> 'n widget" where
  "beforetoggle_listener toStr newState w =
     (let w1 = updatePosition toStr w
      in if newState = ''open'' then addEventListener w1 else removeEventListener w1)"

text \<open>
  The platform's side of a transition: it dispatches \<open>beforetoggle\<close> to every listener on
  the popover (\<open>dispatch_beforetoggle\<close>), and after the dispatch it changes the popover's
  state. \<open>toggle\<close> is a transition that is announced and carried out. The two ways in
  which the platform departs from that, an opening cancelled after the dispatch and a
  closing without any dispatch, are events of their own below.
\<close>

definition dispatch_beforetoggle ::
  "('n::minus \<Rightarrow> string) \<Rightarrow> string \<Rightarrow> 'n widget \<Rightarrow> 'n widget" where
  "dispatch_beforetoggle toStr newState w =
     ((beforetoggle_listener toStr newState) ^^ (toggle_listeners w)) w"

definition toggle :: "('n::minus \<Rightarrow> string) \<Rightarrow> string \<Rightarrow> 'n widget \<Rightarrow> 'n widget" where
  "toggle toStr newState w =
     (dispatch_beforetoggle toStr newState w)\<lparr>popover_open := (newState = ''open'')\<rparr>"

text \<open>\<open>popover.hidePopover()\<close>: the call, and the transition to \<open>closed\<close> it starts.\<close>

definition hidePopover :: "('n::minus \<Rightarrow> string) \<Rightarrow> 'n widget \<Rightarrow> 'n widget" where
  "hidePopover toStr w = toggle toStr ''closed'' (w\<lparr>effects := effects w @ [HidePopover]\<rparr>)"

subsection \<open>\<open>#resizeListener\<close>\<close>

text \<open>The function handed to \<open>debounce\<close>.\<close>

definition resize_callback :: "('n::minus \<Rightarrow> string) \<Rightarrow> 'n widget \<Rightarrow> 'n widget" where
  "resize_callback toStr w =
     (if truthy (closeOnResize w) then
        (if refs_popover w \<and> popover_open w then hidePopover toStr w else w)
      else w)"

text \<open>
  Modelled from the spec: \<open>debounce\<close> of \<open>@theme/utilities\<close>, which is not among the
  sources. The spec: "suppress all but the last of a rapid sequence of invocations within
  a fixed time window", "only the trailing call in a 100 ms burst executes; earlier calls
  in the same burst produce no effect". A call of the debounced function drops the
  pending timer and starts one that is due 100 ms later; the callback runs when a timer
  comes due.
\<close>

definition resizeListener :: "'n widget \<Rightarrow> 'n widget" where
  "resizeListener w = w\<lparr>timeout := Some (now w + 100)\<rparr>"

text \<open>A \<open>resize\<close> event on \<open>window\<close> calls the listener when it is registered.\<close>

definition resize_event :: "'n widget \<Rightarrow> 'n widget" where
  "resize_event w = (if resize_listening w then resizeListener w else w)"

text \<open>
  Modelled from the spec: the timer of \<open>debounce\<close> (not among the sources) as time
  passes. \<open>d\<close> milliseconds pass; a pending timer that comes due in them is cleared
  and runs the callback, once.
\<close>

definition advance :: "('n::minus \<Rightarrow> string) \<Rightarrow> nat \<Rightarrow> 'n widget \<Rightarrow> 'n widget" where
  "advance toStr d w =
     (case timeout w of
        None \<Rightarrow> w\<lparr>now := now w + d\<rparr>
      | Some t \<Rightarrow>
          if t \<le> now w + d
          then resize_callback toStr (w\<lparr>now := now w + d, timeout := None\<rparr>)
          else w\<lparr>now := now w + d\<rparr>)"

subsection \<open>Lifecycle\<close>

text \<open>
  \<open>super.connectedCallback()\<close> and \<open>super.disconnectedCallback()\<close> belong to the base
  class \<open>Component\<close>, which is not among the sources; the references it resolves are the
  fields \<open>refs_popover\<close> and \<open>refs_trigger\<close>, which no function here changes.
  \<open>popover?.addEventListener\<close> is skipped when the reference is \<open>undefined\<close>; the call
  of \<open>requestIdleCallback\<close> queues one request.
\<close>

definition connectedCallback :: "'n widget \<Rightarrow> 'n widget" where
  "connectedCallback w =
     (let w1 = (if refs_popover w
                then w\<lparr>toggle_listeners := Suc (toggle_listeners w),
                        effects := effects w @ [AddToggleListener]\<rparr>
                else w)
      in w1\<lparr>idle_queue := Suc (idle_queue w1), effects := effects w1 @ [RequestIdleCallback]\<rparr>)"

text \<open>
  Modelled from the spec: \<open>requestIdleCallback\<close> of \<open>@theme/utilities\<close>, which is not
  among the sources. The spec: "schedule work to run when the host environment has no
  higher-priority pending work, with no fixed deadline". \<open>idle_callback\<close> is the
  environment running one queued request, whose body is the call of \<open>#updatePosition\<close>.
\<close>

definition idle_callback :: "('n::minus \<Rightarrow> string) \<Rightarrow> 'n widget \<Rightarrow> 'n widget" where
  "idle_callback toStr w =
     (if idle_queue w = 0 then w
      else updatePosition toStr (w\<lparr>idle_queue := idle_queue w - 1\<rparr>))"

text \<open>The cleanup: the resize listener is removed, whatever the state.\<close>

definition disconnectedCallback :: "'n widget \<Rightarrow> 'n widget" where
  "disconnectedCallback w = removeEventListener w"

subsection \<open>Histories of one instance\<close>

text \<open>
  What can happen to an instance: the lifecycle callbacks, a transition of the popover that
  is announced and carried out (\<open>Toggle\<close>), a \<open>resize\<close> event, time passing, an idle
  period, a change of the \<open>data-close-on-resize\<close> attribute, a change of the layout (the
  trigger's rectangle and the viewport's size), and the two transitions that the platform
  does not carry out as announced:
  \<^item> \<open>OpenCancelled\<close>: \<open>beforetoggle\<close> for a transition to \<open>open\<close> is dispatched, and
    the opening is then cancelled (the event is cancelable, and a listener of another script
    may call \<open>preventDefault\<close>): the popover stays as it is;
  \<^item> \<open>PopoverRemoved\<close>: the popover element is removed from the document, and the
    platform closes it without dispatching \<open>beforetoggle\<close>.
\<close>

datatype 'n event =
    Connect
  | Disconnect
  | Toggle string
  | Resize
  | Advance nat
  | Idle
  | SetAttribute "string option"
  | Layout "'n DOMRect" 'n 'n
  | OpenCancelled
  | PopoverRemoved

fun step :: "('n::minus \<Rightarrow> string) \<Rightarrow> 'n event \<Rightarrow> 'n widget \<Rightarrow> 'n widget" where
  "step toStr Connect w = connectedCallback w"
| "step toStr Disconnect w = disconnectedCallback w"
| "step toStr (Toggle newState) w = toggle toStr newState w"
| "step toStr Resize w = resize_event w"
| "step toStr (Advance d) w = advance toStr d w"
| "step toStr Idle w = idle_callback toStr w"
| "step toStr (SetAttribute a) w = w\<lparr>closeOnResize := a\<rparr>"
| "step toStr (Layout r iw ih) w = w\<lparr>boundingClientRect := r, innerWidth := iw, innerHeight := ih\<rparr>"
| "step toStr OpenCancelled w = dispatch_beforetoggle toStr ''open'' w"
| "step toStr PopoverRemoved w = w\<lparr>popover_open := False\<rparr>"

fun run :: "('n::minus \<Rightarrow> string) \<Rightarrow> 'n event list \<Rightarrow> 'n widget \<Rightarrow> 'n widget" where
  "run toStr [] w = w"
| "run toStr (e # es) w = run toStr es (step toStr e w)"

text \<open>
  The events at which the popover's state changes as announced, or not at all: every event
  but a cancelled opening and a closing without dispatch.
\<close>

fun carried_out :: "'n event \<Rightarrow> bool" where
  "carried_out OpenCancelled = False"
| "carried_out PopoverRemoved = False"
| "carried_out e = True"

text \<open>A newly constructed instance: nothing registered, nothing pending, no call made.\<close>

definition fresh :: "'n widget \<Rightarrow> bool" where
  "fresh w = (\<not> resize_listening w \<and> toggle_listeners w = 0 \<and> idle_queue w = 0
              \<and> timeout w = None \<and> effects w = [])"

text \<open>
  A burst of \<open>resize\<close> events: the first one now, and one more after each of the gaps
  \<open>ds\<close> (in milliseconds).
\<close>

fun burst :: "('n::minus \<Rightarrow> string) \<Rightarrow> nat list \<Rightarrow> 'n widget \<Rightarrow> 'n widget" where
  "burst toStr [] w = resize_event w"
| "burst toStr (d # ds) w = burst toStr ds (advance toStr d (resize_event w))"

subsection \<open>The calls of one recomputation\<close>

text \<open>The calls that one run of \<open>#updatePosition\<close> makes, read off its body.\<close>

definition position_writes :: "('n::minus \<Rightarrow> string) \<Rightarrow> 'n widget \<Rightarrow> effect list" where
  "position_writes toStr w =
     (if refs_popover w \<and> refs_trigger w then
        [SetProperty ''--anchor-top'' (toStr (rect_top (boundingClientRect w))),
         SetProperty ''--anchor-right'' (toStr (innerWidth w - rect_right (boundingClientRect w))),
         SetProperty ''--anchor-bottom'' (toStr (innerHeight w - rect_bottom (boundingClientRect w))),
         SetProperty ''--anchor-left'' (toStr (rect_left (boundingClientRect w)))]
      else [])"

subsection \<open>Decimal rendering of whole numbers\<close>

text \<open>What a template literal makes of an integral number, for the worked examples.\<close>

definition digit :: "nat \<Rightarrow> char" where
  "digit n = ''0123456789'' ! n"

function nat_str :: "nat \<Rightarrow> string" where
  "nat_str n = (if n < 10 then [digit n] else nat_str (n div 10) @ [digit (n mod 10)])"
  by pat_completeness auto
termination
  by (relation "measure (\<lambda>n. n)") auto

definition int_str :: "int \<Rightarrow> string" where
  "int_str i = (if i < 0 then CHR ''-'' # nat_str (nat (- i)) else nat_str (nat i))"

text \<open>
  The scenario of the spec: the trigger at top 50, left 20, right 120, bottom 80 in a
  viewport of 1000 by 800, both references present, the popover closed, a newly
  constructed instance.
\<close>

definition scenario :: "int widget" where
  "scenario =
     \<lparr>refs_popover = True, refs_trigger = True,
      boundingClientRect = \<lparr>rect_top = 50, rect_right = 120, rect_bottom = 80, rect_left = 20\<rparr>,
      innerWidth = 1000, innerHeight = 800,
      closeOnResize = None, style = Map.empty, popover_open = False,
      resize_listening = False, toggle_listeners = 0, idle_queue = 0,
      timeout = None, now = 0, effects = []\<rparr>"

text \<open>
  The scenario after the widget was attached and the popover opened, with the attribute
  \<open>data-close-on-resize\<close> as given.
\<close>

definition opened :: "string option \<Rightarrow> int widget" where
  "opened a = run int_str [SetAttribute a, Connect, Toggle ''open''] scenario"

section \<open>Properties\<close>

subsection \<open>Auxiliary facts\<close>

lemma int_str_50: "int_str 50 = ''50''"
  by (simp add: int_str_def digit_def)

lemma int_str_20: "int_str 20 = ''20''"
  by (simp add: int_str_def digit_def)

lemma int_str_880: "int_str 880 = ''880''"
  by (simp add: int_str_def digit_def)

lemma int_str_720: "int_str 720 = ''720''"
  by (simp add: int_str_def digit_def)

lemma updatePosition_present:
  "refs_popover w \<Longrightarrow> refs_trigger w \<Longrightarrow>
   updatePosition toStr w =
     w\<lparr>style := (style w)
          (''--anchor-top'' \<mapsto> toStr (rect_top (boundingClientRect w)),
           ''--anchor-right'' \<mapsto> toStr (innerWidth w - rect_right (boundingClientRect w)),
           ''--anchor-bottom'' \<mapsto> toStr (innerHeight w - rect_bottom (boundingClientRect w)),
           ''--anchor-left'' \<mapsto> toStr (rect_left (boundingClientRect w))),
        effects := effects w @
          [SetProperty ''--anchor-top'' (toStr (rect_top (boundingClientRect w))),
           SetProperty ''--anchor-right'' (toStr (innerWidth w - rect_right (boundingClientRect w))),
           SetProperty ''--anchor-bottom'' (toStr (innerHeight w - rect_bottom (boundingClientRect w))),
           SetProperty ''--anchor-left'' (toStr (rect_left (boundingClientRect w)))]\<rparr>"
  by (simp add: updatePosition_def setProperty_def Let_def)

lemma updatePosition_absent:
  "\<not> refs_popover w \<or> \<not> refs_trigger w \<Longrightarrow> updatePosition toStr w = w"
  by (simp add: updatePosition_def)

lemma scenario_fields:
  "refs_popover scenario" "refs_trigger scenario"
  "boundingClientRect scenario =
     \<lparr>rect_top = 50, rect_right = 120, rect_bottom = 80, rect_left = 20\<rparr>"
  "innerWidth scenario = 1000" "innerHeight scenario = 800"
  "closeOnResize scenario = None" "style scenario = Map.empty" "\<not> popover_open scenario"
  "\<not> resize_listening scenario" "toggle_listeners scenario = 0" "idle_queue scenario = 0"
  "timeout scenario = None" "now scenario = 0" "effects scenario = []"
  by (simp_all add: scenario_def)

subsection \<open>Recomputing the position\<close>

text \<open>
  C1. Whatever the trigger's rectangle and the viewport's size, when both references are
  present \<open>#updatePosition\<close> leaves on the popover \<open>--anchor-top\<close> = the rectangle's top,
  \<open>--anchor-left\<close> = its left, \<open>--anchor-right\<close> = the viewport's width minus its right,
  \<open>--anchor-bottom\<close> = the viewport's height minus its bottom (each rendered by the
  template literal), and these four \<open>setProperty\<close> calls are all it does.
\<close>

theorem updatePosition_writes_offsets:
  assumes "refs_popover w" and "refs_trigger w"
  shows "style (updatePosition toStr w) ''--anchor-top''
           = Some (toStr (rect_top (boundingClientRect w)))
       \<and> style (updatePosition toStr w) ''--anchor-left''
           = Some (toStr (rect_left (boundingClientRect w)))
       \<and> style (updatePosition toStr w) ''--anchor-right''
           = Some (toStr (innerWidth w - rect_right (boundingClientRect w)))
       \<and> style (updatePosition toStr w) ''--anchor-bottom''
           = Some (toStr (innerHeight w - rect_bottom (boundingClientRect w)))
       \<and> effects (updatePosition toStr w) = effects w @
          [SetProperty ''--anchor-top'' (toStr (rect_top (boundingClientRect w))),
           SetProperty ''--anchor-right'' (toStr (innerWidth w - rect_right (boundingClientRect w))),
           SetProperty ''--anchor-bottom'' (toStr (innerHeight w - rect_bottom (boundingClientRect w))),
           SetProperty ''--anchor-left'' (toStr (rect_left (boundingClientRect w)))]"
  using assms by (simp add: updatePosition_present)

theorem updatePosition_writes_offsets_witness:
  "refs_popover scenario \<and> refs_trigger scenario
   \<and> style (updatePosition int_str scenario) ''--anchor-top'' = Some ''50''
   \<and> style (updatePosition int_str scenario) ''--anchor-left'' = Some ''20''
   \<and> style (updatePosition int_str scenario) ''--anchor-right'' = Some ''880''
   \<and> style (updatePosition int_str scenario) ''--anchor-bottom'' = Some ''720''
   \<and> effects (updatePosition int_str scenario) =
        [SetProperty ''--anchor-top'' ''50'', SetProperty ''--anchor-right'' ''880'',
         SetProperty ''--anchor-bottom'' ''720'', SetProperty ''--anchor-left'' ''20'']"
  using updatePosition_writes_offsets [OF scenario_fields(1) scenario_fields(2), of int_str]
  by (simp add: scenario_fields int_str_50 int_str_20 int_str_880 int_str_720)

text \<open>
  C4. When the popover reference or the trigger reference is absent,
  \<open>#updatePosition\<close> returns at once: the state after the call is the state before it, so
  no property of the popover is touched and no call is made; the function has no path
  that throws.
\<close>

theorem updatePosition_missing_ref_noop:
  assumes "\<not> refs_popover w \<or> \<not> refs_trigger w"
  shows "updatePosition toStr w = w"
  using assms by (rule updatePosition_absent)

theorem updatePosition_missing_ref_noop_witness:
  "refs_trigger (scenario\<lparr>refs_popover := False\<rparr>)
   \<and> updatePosition int_str (scenario\<lparr>refs_popover := False\<rparr>)
       = scenario\<lparr>refs_popover := False\<rparr>
   \<and> refs_popover (scenario\<lparr>refs_trigger := False\<rparr>)
   \<and> updatePosition int_str (scenario\<lparr>refs_trigger := False\<rparr>)
       = scenario\<lparr>refs_trigger := False\<rparr>"
  using updatePosition_missing_ref_noop [of "scenario\<lparr>refs_popover := False\<rparr>" int_str]
        updatePosition_missing_ref_noop [of "scenario\<lparr>refs_trigger := False\<rparr>" int_str]
  by (simp add: scenario_fields)

lemma updatePosition_fields [simp]:
  "refs_popover (updatePosition toStr w) = refs_popover w"
  "refs_trigger (updatePosition toStr w) = refs_trigger w"
  "boundingClientRect (updatePosition toStr w) = boundingClientRect w"
  "innerWidth (updatePosition toStr w) = innerWidth w"
  "innerHeight (updatePosition toStr w) = innerHeight w"
  "closeOnResize (updatePosition toStr w) = closeOnResize w"
  "popover_open (updatePosition toStr w) = popover_open w"
  "resize_listening (updatePosition toStr w) = resize_listening w"
  "toggle_listeners (updatePosition toStr w) = toggle_listeners w"
  "idle_queue (updatePosition toStr w) = idle_queue w"
  "timeout (updatePosition toStr w) = timeout w"
  "now (updatePosition toStr w) = now w"
  by (simp_all add: updatePosition_def setProperty_def Let_def)


lemma effects_updatePosition:
  "effects (updatePosition toStr w) = effects w @ position_writes toStr w"
  by (cases "refs_popover w \<and> refs_trigger w")
     (auto simp: updatePosition_present updatePosition_absent position_writes_def)

lemma position_writes_updatePosition:
  "position_writes toStr (updatePosition toStr w) = position_writes toStr w"
  by (simp add: position_writes_def)

lemma style_updatePosition_twice:
  "style (updatePosition toStr (updatePosition toStr w)) = style (updatePosition toStr w)"
  by (cases "refs_popover w \<and> refs_trigger w")
     (auto simp: updatePosition_present updatePosition_absent)

text \<open>
  C8. Two runs of \<open>#updatePosition\<close> in succession, with the trigger's rectangle and
  the viewport's size unchanged between them, make the same calls with the same values, and
  the second run leaves the popover's properties as the first run left them.
\<close>

theorem updatePosition_idempotent:
  "\<exists>acts. effects (updatePosition toStr w) = effects w @ acts
        \<and> effects (updatePosition toStr (updatePosition toStr w))
            = effects (updatePosition toStr w) @ acts
        \<and> style (updatePosition toStr (updatePosition toStr w)) = style (updatePosition toStr w)"
  by (rule exI [of _ "position_writes toStr w"])
     (simp add: effects_updatePosition position_writes_updatePosition style_updatePosition_twice)

theorem updatePosition_idempotent_witness:
  "effects (updatePosition int_str (updatePosition int_str scenario)) =
     [SetProperty ''--anchor-top'' ''50'', SetProperty ''--anchor-right'' ''880'',
      SetProperty ''--anchor-bottom'' ''720'', SetProperty ''--anchor-left'' ''20'',
      SetProperty ''--anchor-top'' ''50'', SetProperty ''--anchor-right'' ''880'',
      SetProperty ''--anchor-bottom'' ''720'', SetProperty ''--anchor-left'' ''20'']
   \<and> style (updatePosition int_str (updatePosition int_str scenario))
       = style (updatePosition int_str scenario)"
proof -
  have e: "effects (updatePosition int_str scenario) =
     [SetProperty ''--anchor-top'' ''50'', SetProperty ''--anchor-right'' ''880'',
      SetProperty ''--anchor-bottom'' ''720'', SetProperty ''--anchor-left'' ''20'']"
    by (simp add: updatePosition_present scenario_fields
        int_str_50 int_str_20 int_str_880 int_str_720)
  from updatePosition_idempotent [of int_str scenario] show ?thesis
    by (auto simp: e scenario_fields)
qed

subsection \<open>The state-change listener\<close>

lemma beforetoggle_listener_open:
  "beforetoggle_listener toStr ''open'' w = addEventListener (updatePosition toStr w)"
  by (simp add: beforetoggle_listener_def)

lemma beforetoggle_listener_other:
  "newState \<noteq> ''open'' \<Longrightarrow>
   beforetoggle_listener toStr newState w = removeEventListener (updatePosition toStr w)"
  by (simp add: beforetoggle_listener_def)

text \<open>
  C2, as the code has it: at a transition to \<open>closed\<close> the listener does not only
  detach. In the scenario of the spec it makes the four \<open>setProperty\<close> calls first, and
  \<open>--anchor-top\<close>, unset before, is \<open>50\<close> afterwards.
\<close>

theorem beforetoggle_listener_closed_counterexample:
  "effects (beforetoggle_listener int_str ''closed'' scenario) =
     [SetProperty ''--anchor-top'' ''50'', SetProperty ''--anchor-right'' ''880'',
      SetProperty ''--anchor-bottom'' ''720'', SetProperty ''--anchor-left'' ''20'',
      RemoveResizeListener]
   \<and> effects (removeEventListener scenario) = [RemoveResizeListener]
   \<and> style scenario ''--anchor-top'' = None
   \<and> style (beforetoggle_listener int_str ''closed'' scenario) ''--anchor-top'' = Some ''50''"
  by (simp add: beforetoggle_listener_other removeEventListener_def updatePosition_present
      scenario_fields int_str_50 int_str_20 int_str_880 int_str_720)

text \<open>
  C2, amended. At every state-change notification, whatever the new state, the listener
  first runs \<open>#updatePosition\<close> and after it makes one more call: it attaches the resize
  listener to \<open>window\<close> when the new state is \<open>open\<close>, and detaches it for any other
  new state.
\<close>

theorem beforetoggle_listener_recomputes_always:
  "effects (beforetoggle_listener toStr newState w) =
     effects (updatePosition toStr w) @
       [if newState = ''open'' then AddResizeListener else RemoveResizeListener]
   \<and> style (beforetoggle_listener toStr newState w) = style (updatePosition toStr w)
   \<and> resize_listening (beforetoggle_listener toStr newState w) = (newState = ''open'')
   \<and> beforetoggle_listener toStr newState w =
       (updatePosition toStr w)
         \<lparr>resize_listening := (newState = ''open''),
          effects := effects (updatePosition toStr w) @
            [if newState = ''open'' then AddResizeListener else RemoveResizeListener]\<rparr>"
  by (simp add: beforetoggle_listener_def addEventListener_def removeEventListener_def Let_def)

theorem beforetoggle_listener_recomputes_always_witness:
  "effects (beforetoggle_listener int_str ''open'' scenario) =
     [SetProperty ''--anchor-top'' ''50'', SetProperty ''--anchor-right'' ''880'',
      SetProperty ''--anchor-bottom'' ''720'', SetProperty ''--anchor-left'' ''20'',
      AddResizeListener]
   \<and> resize_listening (beforetoggle_listener int_str ''open'' scenario)
   \<and> effects (beforetoggle_listener int_str ''closed'' scenario) =
     [SetProperty ''--anchor-top'' ''50'', SetProperty ''--anchor-right'' ''880'',
      SetProperty ''--anchor-bottom'' ''720'', SetProperty ''--anchor-left'' ''20'',
      RemoveResizeListener]
   \<and> \<not> resize_listening (beforetoggle_listener int_str ''closed'' scenario)"
  using beforetoggle_listener_recomputes_always [of int_str "''open''" scenario]
        beforetoggle_listener_recomputes_always [of int_str "''closed''" scenario]
  by (simp add: updatePosition_present scenario_fields
      int_str_50 int_str_20 int_str_880 int_str_720)






subsection \<open>The debounced resize listener\<close>

lemma beforetoggle_listener_fields [simp]:
  "refs_popover (beforetoggle_listener toStr ns w) = refs_popover w"
  "refs_trigger (beforetoggle_listener toStr ns w) = refs_trigger w"
  "boundingClientRect (beforetoggle_listener toStr ns w) = boundingClientRect w"
  "innerWidth (beforetoggle_listener toStr ns w) = innerWidth w"
  "innerHeight (beforetoggle_listener toStr ns w) = innerHeight w"
  "closeOnResize (beforetoggle_listener toStr ns w) = closeOnResize w"
  "popover_open (beforetoggle_listener toStr ns w) = popover_open w"
  "toggle_listeners (beforetoggle_listener toStr ns w) = toggle_listeners w"
  "idle_queue (beforetoggle_listener toStr ns w) = idle_queue w"
  "timeout (beforetoggle_listener toStr ns w) = timeout w"
  "now (beforetoggle_listener toStr ns w) = now w"
  "resize_listening (beforetoggle_listener toStr ns w) = (ns = ''open'')"
  by (simp_all add: beforetoggle_listener_def addEventListener_def removeEventListener_def Let_def)

lemma count_HidePopover_updatePosition [simp]:
  "count_list (effects (updatePosition toStr w)) HidePopover = count_list (effects w) HidePopover"
  by (simp add: effects_updatePosition position_writes_def)

lemma count_HidePopover_listener [simp]:
  "count_list (effects (beforetoggle_listener toStr ns w)) HidePopover
     = count_list (effects w) HidePopover"
  by (simp add: beforetoggle_listener_def addEventListener_def removeEventListener_def Let_def)

lemma listeners_fields [simp]:
  "refs_popover ((beforetoggle_listener toStr ns ^^ n) w) = refs_popover w"
  "refs_trigger ((beforetoggle_listener toStr ns ^^ n) w) = refs_trigger w"
  "boundingClientRect ((beforetoggle_listener toStr ns ^^ n) w) = boundingClientRect w"
  "innerWidth ((beforetoggle_listener toStr ns ^^ n) w) = innerWidth w"
  "innerHeight ((beforetoggle_listener toStr ns ^^ n) w) = innerHeight w"
  "closeOnResize ((beforetoggle_listener toStr ns ^^ n) w) = closeOnResize w"
  "popover_open ((beforetoggle_listener toStr ns ^^ n) w) = popover_open w"
  "toggle_listeners ((beforetoggle_listener toStr ns ^^ n) w) = toggle_listeners w"
  "idle_queue ((beforetoggle_listener toStr ns ^^ n) w) = idle_queue w"
  "timeout ((beforetoggle_listener toStr ns ^^ n) w) = timeout w"
  "now ((beforetoggle_listener toStr ns ^^ n) w) = now w"
  "count_list (effects ((beforetoggle_listener toStr ns ^^ n) w)) HidePopover
     = count_list (effects w) HidePopover"
  by (induction n) simp_all

lemma listeners_listening:
  "resize_listening ((beforetoggle_listener toStr ns ^^ n) w)
     = (if n = 0 then resize_listening w else ns = ''open'')"
  by (cases n) simp_all

lemma toggle_fields [simp]:
  "refs_popover (toggle toStr ns w) = refs_popover w"
  "refs_trigger (toggle toStr ns w) = refs_trigger w"
  "boundingClientRect (toggle toStr ns w) = boundingClientRect w"
  "innerWidth (toggle toStr ns w) = innerWidth w"
  "innerHeight (toggle toStr ns w) = innerHeight w"
  "closeOnResize (toggle toStr ns w) = closeOnResize w"
  "popover_open (toggle toStr ns w) = (ns = ''open'')"
  "toggle_listeners (toggle toStr ns w) = toggle_listeners w"
  "idle_queue (toggle toStr ns w) = idle_queue w"
  "timeout (toggle toStr ns w) = timeout w"
  "now (toggle toStr ns w) = now w"
  "count_list (effects (toggle toStr ns w)) HidePopover = count_list (effects w) HidePopover"
  "resize_listening (toggle toStr ns w)
     = (if toggle_listeners w = 0 then resize_listening w else ns = ''open'')"
  by (simp_all add: toggle_def dispatch_beforetoggle_def listeners_listening)

lemma hidePopover_fields [simp]:
  "refs_popover (hidePopover toStr w) = refs_popover w"
  "refs_trigger (hidePopover toStr w) = refs_trigger w"
  "boundingClientRect (hidePopover toStr w) = boundingClientRect w"
  "innerWidth (hidePopover toStr w) = innerWidth w"
  "innerHeight (hidePopover toStr w) = innerHeight w"
  "closeOnResize (hidePopover toStr w) = closeOnResize w"
  "\<not> popover_open (hidePopover toStr w)"
  "toggle_listeners (hidePopover toStr w) = toggle_listeners w"
  "idle_queue (hidePopover toStr w) = idle_queue w"
  "timeout (hidePopover toStr w) = timeout w"
  "now (hidePopover toStr w) = now w"
  "count_list (effects (hidePopover toStr w)) HidePopover = Suc (count_list (effects w) HidePopover)"
  "resize_listening (hidePopover toStr w)
     = (if toggle_listeners w = 0 then resize_listening w else False)"
  by (simp_all add: hidePopover_def)

lemma resize_callback_fields [simp]:
  "refs_popover (resize_callback toStr w) = refs_popover w"
  "refs_trigger (resize_callback toStr w) = refs_trigger w"
  "boundingClientRect (resize_callback toStr w) = boundingClientRect w"
  "innerWidth (resize_callback toStr w) = innerWidth w"
  "innerHeight (resize_callback toStr w) = innerHeight w"
  "closeOnResize (resize_callback toStr w) = closeOnResize w"
  "toggle_listeners (resize_callback toStr w) = toggle_listeners w"
  "idle_queue (resize_callback toStr w) = idle_queue w"
  "timeout (resize_callback toStr w) = timeout w"
  "now (resize_callback toStr w) = now w"
  by (simp_all add: resize_callback_def)

lemma resize_callback_closes:
  "truthy (closeOnResize w) \<Longrightarrow> refs_popover w \<Longrightarrow> popover_open w \<Longrightarrow>
   resize_callback toStr w = hidePopover toStr w"
  by (simp add: resize_callback_def)

lemma resize_callback_idle:
  "\<not> (truthy (closeOnResize w) \<and> refs_popover w \<and> popover_open w) \<Longrightarrow>
   resize_callback toStr w = w"
  by (auto simp: resize_callback_def)

lemma resize_callback_count:
  "count_list (effects (resize_callback toStr w)) HidePopover
     \<le> Suc (count_list (effects w) HidePopover)"
  by (simp add: resize_callback_def)

lemma advance_no_timer:
  "timeout w = None \<Longrightarrow> advance toStr d w = w\<lparr>now := now w + d\<rparr>"
  by (simp add: advance_def)

lemma advance_early:
  "timeout w = Some t \<Longrightarrow> now w + d < t \<Longrightarrow> advance toStr d w = w\<lparr>now := now w + d\<rparr>"
  by (simp add: advance_def)

lemma advance_due:
  "timeout w = Some t \<Longrightarrow> t \<le> now w + d \<Longrightarrow>
   advance toStr d w = resize_callback toStr (w\<lparr>now := now w + d, timeout := None\<rparr>)"
  by (simp add: advance_def)

lemma resize_event_listening:
  "resize_listening w \<Longrightarrow> resize_event w = w\<lparr>timeout := Some (now w + 100)\<rparr>"
  by (simp add: resize_event_def resizeListener_def)

lemma burst_within_window:
  "resize_listening w \<Longrightarrow> sum_list ds < 100 \<Longrightarrow>
   burst toStr ds w
     = w\<lparr>now := now w + sum_list ds, timeout := Some (now w + sum_list ds + 100)\<rparr>"
proof (induction ds arbitrary: w)
  case Nil
  then show ?case by (simp add: resize_event_listening)
next
  case (Cons d ds)
  let ?w1 = "w\<lparr>timeout := Some (now w + 100)\<rparr>"
  let ?w2 = "w\<lparr>now := now w + d, timeout := Some (now w + 100)\<rparr>"
  from Cons.prems have d: "d < 100" and s: "sum_list ds < 100" by simp_all
  have "advance toStr d ?w1 = ?w1\<lparr>now := now ?w1 + d\<rparr>"
    using d by (intro advance_early [where t = "now w + 100"]) simp_all
  then have a: "advance toStr d (resize_event w) = ?w2"
    using Cons.prems(1) by (simp add: resize_event_listening)
  have "burst toStr ds ?w2
     = ?w2\<lparr>now := now ?w2 + sum_list ds, timeout := Some (now ?w2 + sum_list ds + 100)\<rparr>"
    using Cons.prems(1) s by (intro Cons.IH) simp_all
  then show ?case
    by (simp add: a add.assoc)
qed

lemma advances_no_timer:
  "timeout w = None \<Longrightarrow> run toStr (map Advance ts) w = w\<lparr>now := now w + sum_list ts\<rparr>"
  by (induction ts arbitrary: w) (simp_all add: advance_no_timer add.assoc)

lemma advances_count:
  "count_list (effects (run toStr (map Advance ts) w)) HidePopover
     \<le> Suc (count_list (effects w) HidePopover)"
proof (induction ts arbitrary: w)
  case Nil
  then show ?case by simp
next
  case (Cons d ts)
  show ?case
  proof (cases "\<exists>t. timeout w = Some t \<and> t \<le> now w + d")
    case True
    then obtain t where t: "timeout w = Some t" "t \<le> now w + d" by blast
    let ?w' = "resize_callback toStr (w\<lparr>now := now w + d, timeout := None\<rparr>)"
    have "timeout ?w' = None" by simp
    then have "effects (run toStr (map Advance ts) ?w') = effects ?w'"
      by (simp add: advances_no_timer)
    moreover have "count_list (effects ?w') HidePopover \<le> Suc (count_list (effects w) HidePopover)"
      using resize_callback_count [of toStr "w\<lparr>now := now w + d, timeout := None\<rparr>"] by simp
    ultimately show ?thesis
      using t by (simp add: advance_due)
  next
    case False
    then have "advance toStr d w = w\<lparr>now := now w + d\<rparr>"
      by (cases "timeout w") (auto simp: advance_no_timer advance_early)
    then show ?thesis
      using Cons.IH [of "w\<lparr>now := now w + d\<rparr>"] by simp
  qed
qed

lemma opened_eq:
  "opened a =
     \<lparr>refs_popover = True, refs_trigger = True,
      boundingClientRect = \<lparr>rect_top = 50, rect_right = 120, rect_bottom = 80, rect_left = 20\<rparr>,
      innerWidth = 1000, innerHeight = 800,
      closeOnResize = a,
      style = [''--anchor-top'' \<mapsto> ''50'', ''--anchor-right'' \<mapsto> ''880'',
               ''--anchor-bottom'' \<mapsto> ''720'', ''--anchor-left'' \<mapsto> ''20''],
      popover_open = True, resize_listening = True, toggle_listeners = 1, idle_queue = 1,
      timeout = None, now = 0,
      effects = [AddToggleListener, RequestIdleCallback,
                 SetProperty ''--anchor-top'' ''50'', SetProperty ''--anchor-right'' ''880'',
                 SetProperty ''--anchor-bottom'' ''720'', SetProperty ''--anchor-left'' ''20'',
                 AddResizeListener]\<rparr>"
  by (simp add: opened_def connectedCallback_def toggle_def dispatch_beforetoggle_def
      beforetoggle_listener_open addEventListener_def updatePosition_present
      int_str_50 int_str_20 int_str_880 int_str_720 scenario_def)

lemma opened_fields:
  "refs_popover (opened a)" "refs_trigger (opened a)" "closeOnResize (opened a) = a"
  "popover_open (opened a)" "resize_listening (opened a)" "toggle_listeners (opened a) = 1"
  "timeout (opened a) = None" "now (opened a) = 0"
  "count_list (effects (opened a)) HidePopover = 0"
  by (simp_all add: opened_eq)

text \<open>
  C5. A burst of one or more \<open>resize\<close> events whose gaps add up to less than 100 ms,
  with the listener registered: the events of the burst close nothing, and the state after
  the burst is the state that the last event alone, at its time, would have left. Nothing
  happens in the 100 ms after the last event; then the callback runs, once. However
  much time passes afterwards, at most one \<open>hidePopover\<close> call is made, and with a truthy
  flag and the popover open it is exactly one.
\<close>

theorem resize_burst_closes_at_most_once:
  assumes "resize_listening w" and "sum_list ds < 100"
  shows "burst toStr ds w = resize_event (w\<lparr>now := now w + sum_list ds\<rparr>)
       \<and> effects (burst toStr ds w) = effects w
       \<and> popover_open (burst toStr ds w) = popover_open w
       \<and> (\<forall>d. d < 100 \<longrightarrow>
             advance toStr d (burst toStr ds w)
               = (burst toStr ds w)\<lparr>now := now w + sum_list ds + d\<rparr>)
       \<and> (\<forall>d. 100 \<le> d \<longrightarrow>
             advance toStr d (burst toStr ds w)
               = resize_callback toStr (w\<lparr>now := now w + sum_list ds + d, timeout := None\<rparr>))
       \<and> (\<forall>ts. count_list (effects (run toStr (map Advance ts) (burst toStr ds w))) HidePopover
               \<le> Suc (count_list (effects w) HidePopover))
       \<and> (\<forall>d. truthy (closeOnResize w) \<and> refs_popover w \<and> popover_open w \<and> 100 \<le> d \<longrightarrow>
             count_list (effects (advance toStr d (burst toStr ds w))) HidePopover
               = Suc (count_list (effects w) HidePopover)
             \<and> \<not> popover_open (advance toStr d (burst toStr ds w)))"
proof -
  let ?b = "burst toStr ds w"
  have b: "?b = w\<lparr>now := now w + sum_list ds, timeout := Some (now w + sum_list ds + 100)\<rparr>"
    using assms by (rule burst_within_window)
  have due: "advance toStr d ?b
               = resize_callback toStr (w\<lparr>now := now w + sum_list ds + d, timeout := None\<rparr>)"
    if "100 \<le> d" for d
    using that advance_due [of ?b "now w + sum_list ds + 100" d toStr] by (simp add: b)
  have early: "advance toStr d ?b = ?b\<lparr>now := now w + sum_list ds + d\<rparr>" if "d < 100" for d
    using that advance_early [of ?b "now w + sum_list ds + 100" d toStr] by (simp add: b)
  have last: "?b = resize_event (w\<lparr>now := now w + sum_list ds\<rparr>)"
    using assms(1) by (simp add: b resize_event_listening)
  have cnt: "count_list (effects (run toStr (map Advance ts) ?b)) HidePopover
               \<le> Suc (count_list (effects w) HidePopover)" for ts
    using advances_count [of toStr ts ?b] by (simp add: b)
  have one: "count_list (effects (advance toStr d ?b)) HidePopover
               = Suc (count_list (effects w) HidePopover)
             \<and> \<not> popover_open (advance toStr d ?b)"
    if "truthy (closeOnResize w) \<and> refs_popover w \<and> popover_open w \<and> 100 \<le> d" for d
    using that by (simp add: due resize_callback_closes)
  have same: "effects ?b = effects w" "popover_open ?b = popover_open w"
    by (simp_all add: b)
  show ?thesis
    using last early due cnt one same by blast
qed

theorem resize_burst_closes_at_most_once_witness:
  "resize_listening (opened (Some ''true'')) \<and> sum_list [30, 30, 30] < (100::nat)
   \<and> truthy (closeOnResize (opened (Some ''true'')))
   \<and> popover_open (opened (Some ''true''))
   \<and> effects (burst int_str [30, 30, 30] (opened (Some ''true''))) = effects (opened (Some ''true''))
   \<and> popover_open (burst int_str [30, 30, 30] (opened (Some ''true'')))
   \<and> count_list (effects (advance int_str 100 (burst int_str [30, 30, 30] (opened (Some ''true'')))))
        HidePopover = 1
   \<and> \<not> popover_open (advance int_str 100 (burst int_str [30, 30, 30] (opened (Some ''true''))))
   \<and> count_list (effects (run int_str (map Advance [100, 100, 100])
                              (burst int_str [30, 30, 30] (opened (Some ''true''))))) HidePopover
        \<le> 1"
proof -
  let ?w = "opened (Some ''true'')"
  let ?b = "burst int_str [30, 30, 30] ?w"
  have l: "resize_listening ?w" and s: "sum_list [30, 30, 30] < (100::nat)"
    by (simp_all add: opened_fields)
  note t = resize_burst_closes_at_most_once [OF l s, of int_str]
  have tr: "truthy (closeOnResize ?w)"
    by (simp add: opened_fields truthy_def)
  have pre: "truthy (closeOnResize ?w) \<and> refs_popover ?w \<and> popover_open ?w \<and> (100::nat) \<le> 100"
    using tr by (simp add: opened_fields)
  from t have "\<forall>d. truthy (closeOnResize ?w) \<and> refs_popover ?w \<and> popover_open ?w \<and> 100 \<le> d \<longrightarrow>
             count_list (effects (advance int_str d ?b)) HidePopover
               = Suc (count_list (effects ?w) HidePopover)
             \<and> \<not> popover_open (advance int_str d ?b)"
    by blast
  with pre have one: "count_list (effects (advance int_str 100 ?b)) HidePopover
               = Suc (count_list (effects ?w) HidePopover)
             \<and> \<not> popover_open (advance int_str 100 ?b)"
    by blast
  from t have "\<forall>ts. count_list (effects (run int_str (map Advance ts) ?b)) HidePopover
               \<le> Suc (count_list (effects ?w) HidePopover)"
    by blast
  then have most: "count_list (effects (run int_str (map Advance [100, 100, 100]) ?b)) HidePopover
               \<le> Suc (count_list (effects ?w) HidePopover)"
    by blast
  from t have same: "effects ?b = effects ?w" "popover_open ?b = popover_open ?w"
    by blast+
  have c0: "count_list (effects ?w) HidePopover = 0" and o: "popover_open ?w"
    by (simp_all add: opened_fields)
  show ?thesis
    using l s tr one most same c0 o by simp
qed

lemma resize_event_timer:
  "\<exists>t. resize_event w = w\<lparr>timeout := t\<rparr>"
proof (cases "resize_listening w")
  case True
  then show ?thesis by (auto simp: resize_event_listening)
next
  case False
  then have "resize_event w = w\<lparr>timeout := timeout w\<rparr>"
    by (simp add: resize_event_def)
  then show ?thesis by blast
qed

lemma advance_unflagged:
  assumes "closeOnResize w = None"
  shows "\<exists>c t. advance toStr d w = w\<lparr>now := c, timeout := t\<rparr>"
proof (cases "\<exists>t. timeout w = Some t \<and> t \<le> now w + d")
  case True
  then obtain t where t: "timeout w = Some t" "t \<le> now w + d" by blast
  have "resize_callback toStr (w\<lparr>now := now w + d, timeout := None\<rparr>)
          = w\<lparr>now := now w + d, timeout := None\<rparr>"
    using assms by (intro resize_callback_idle) (simp add: truthy_def)
  with t show ?thesis
    by (auto simp: advance_due)
next
  case False
  then have "advance toStr d w = w\<lparr>now := now w + d, timeout := timeout w\<rparr>"
    by (cases "timeout w") (auto simp: advance_no_timer advance_early)
  then show ?thesis by blast
qed

lemma burst_unflagged:
  "closeOnResize w = None \<Longrightarrow> \<exists>c t. burst toStr ds w = w\<lparr>now := c, timeout := t\<rparr>"
proof (induction ds arbitrary: w)
  case Nil
  obtain t where "resize_event w = w\<lparr>timeout := t\<rparr>"
    using resize_event_timer by blast
  then have "burst toStr [] w = w\<lparr>now := now w, timeout := t\<rparr>" by simp
  then show ?case by blast
next
  case (Cons d ds)
  obtain t1 where r: "resize_event w = w\<lparr>timeout := t1\<rparr>"
    using resize_event_timer by blast
  have "closeOnResize (w\<lparr>timeout := t1\<rparr>) = None"
    using Cons.prems by simp
  then obtain c2 t2 where a: "advance toStr d (w\<lparr>timeout := t1\<rparr>) = w\<lparr>timeout := t1\<rparr>\<lparr>now := c2, timeout := t2\<rparr>"
    using advance_unflagged by blast
  let ?w2 = "w\<lparr>now := c2, timeout := t2\<rparr>"
  have "closeOnResize ?w2 = None" using Cons.prems by simp
  then obtain c t where "burst toStr ds ?w2 = ?w2\<lparr>now := c, timeout := t\<rparr>"
    using Cons.IH by blast
  then have "burst toStr (d # ds) w = w\<lparr>now := c, timeout := t\<rparr>"
    by (simp add: r a)
  then show ?case by blast
qed

text \<open>
  C6. With no \<open>data-close-on-resize\<close> attribute the callback of the resize listener does
  nothing, and \<open>resize\<close> events in any number and at any distances, followed by any wait,
  change nothing but the clock and the pending timer: the popover stays as it was, no call
  is made, its properties and the registration of the listener are unchanged.
\<close>

theorem resize_without_flag_no_effect:
  assumes "closeOnResize w = None"
  shows "resize_callback toStr w = w
       \<and> (\<forall>ds d. \<exists>c t. advance toStr d (burst toStr ds w) = w\<lparr>now := c, timeout := t\<rparr>)
       \<and> (\<forall>ds d. popover_open (advance toStr d (burst toStr ds w)) = popover_open w
                \<and> effects (advance toStr d (burst toStr ds w)) = effects w
                \<and> style (advance toStr d (burst toStr ds w)) = style w
                \<and> resize_listening (advance toStr d (burst toStr ds w)) = resize_listening w)"
proof -
  have cb: "resize_callback toStr w = w"
    using assms by (intro resize_callback_idle) (simp add: truthy_def)
  have ex: "\<exists>c t. advance toStr d (burst toStr ds w) = w\<lparr>now := c, timeout := t\<rparr>" for ds d
  proof -
    obtain c1 t1 where b: "burst toStr ds w = w\<lparr>now := c1, timeout := t1\<rparr>"
      using burst_unflagged [OF assms] by blast
    have "closeOnResize (w\<lparr>now := c1, timeout := t1\<rparr>) = None"
      using assms by simp
    then obtain c t where
      "advance toStr d (w\<lparr>now := c1, timeout := t1\<rparr>) = w\<lparr>now := c1, timeout := t1\<rparr>\<lparr>now := c, timeout := t\<rparr>"
      using advance_unflagged by blast
    then have "advance toStr d (burst toStr ds w) = w\<lparr>now := c, timeout := t\<rparr>"
      by (simp add: b)
    then show ?thesis by blast
  qed
  have fields: "popover_open (advance toStr d (burst toStr ds w)) = popover_open w
                \<and> effects (advance toStr d (burst toStr ds w)) = effects w
                \<and> style (advance toStr d (burst toStr ds w)) = style w
                \<and> resize_listening (advance toStr d (burst toStr ds w)) = resize_listening w" for ds d
  proof -
    obtain c t where "advance toStr d (burst toStr ds w) = w\<lparr>now := c, timeout := t\<rparr>"
      using ex by blast
    then show ?thesis by simp
  qed
  show ?thesis
    using cb ex fields by blast
qed

theorem resize_without_flag_no_effect_witness:
  "closeOnResize (opened None) = None \<and> popover_open (opened None)
   \<and> resize_listening (opened None)
   \<and> resize_callback int_str (opened None) = opened None
   \<and> popover_open (advance int_str 500 (burst int_str [10, 250, 40, 100] (opened None)))
   \<and> effects (advance int_str 500 (burst int_str [10, 250, 40, 100] (opened None)))
       = effects (opened None)
   \<and> style (advance int_str 500 (burst int_str [10, 250, 40, 100] (opened None)))
       = style (opened None)"
proof -
  have a: "closeOnResize (opened None) = None"
    by (simp add: opened_fields)
  note t = resize_without_flag_no_effect [OF a, of int_str]
  from t have cb: "resize_callback int_str (opened None) = opened None"
    by blast
  from t have "\<forall>ds d. popover_open (advance int_str d (burst int_str ds (opened None)))
                   = popover_open (opened None)
                \<and> effects (advance int_str d (burst int_str ds (opened None))) = effects (opened None)
                \<and> style (advance int_str d (burst int_str ds (opened None))) = style (opened None)
                \<and> resize_listening (advance int_str d (burst int_str ds (opened None)))
                   = resize_listening (opened None)"
    by blast
  then have "popover_open (advance int_str 500 (burst int_str [10, 250, 40, 100] (opened None)))
                   = popover_open (opened None)
                \<and> effects (advance int_str 500 (burst int_str [10, 250, 40, 100] (opened None)))
                   = effects (opened None)
                \<and> style (advance int_str 500 (burst int_str [10, 250, 40, 100] (opened None)))
                   = style (opened None)"
    by blast
  then show ?thesis
    using a cb by (simp add: opened_fields)
qed

subsection \<open>Histories\<close>

lemma run_append: "run toStr (es @ fs) w = run toStr fs (run toStr es w)"
  by (induction es arbitrary: w) simp_all

lemma advance_cases:
  "advance toStr d w = w\<lparr>now := now w + d\<rparr>
   \<or> advance toStr d w = resize_callback toStr (w\<lparr>now := now w + d, timeout := None\<rparr>)"
  by (simp add: advance_def split: option.splits)

lemma resize_callback_cases:
  "resize_callback toStr w = w \<or> (refs_popover w \<and> resize_callback toStr w = hidePopover toStr w)"
  by (simp add: resize_callback_def)

lemma dispatch_beforetoggle_fields [simp]:
  "popover_open (dispatch_beforetoggle toStr ns w) = popover_open w"
  "toggle_listeners (dispatch_beforetoggle toStr ns w) = toggle_listeners w"
  "refs_popover (dispatch_beforetoggle toStr ns w) = refs_popover w"
  "resize_listening (dispatch_beforetoggle toStr ns w)
     = (if toggle_listeners w = 0 then resize_listening w else ns = ''open'')"
  by (simp_all add: dispatch_beforetoggle_def listeners_listening)

lemma dispatch_no_listeners:
  "toggle_listeners w = 0 \<Longrightarrow> dispatch_beforetoggle toStr ns w = w"
  by (simp add: dispatch_beforetoggle_def)

lemma advance_three_cases:
  obtains "advance toStr d w = w\<lparr>now := now w + d\<rparr>"
  | "advance toStr d w = w\<lparr>now := now w + d, timeout := None\<rparr>"
  | "advance toStr d w = hidePopover toStr (w\<lparr>now := now w + d, timeout := None\<rparr>)"
  using advance_cases [of toStr d w]
    resize_callback_cases [of toStr "w\<lparr>now := now w + d, timeout := None\<rparr>"]
  by metis

lemma step_keeps_listening_open:
  assumes "resize_listening w \<longrightarrow> popover_open w \<and> 0 < toggle_listeners w"
    and "carried_out e"
  shows "resize_listening (step toStr e w)
           \<longrightarrow> popover_open (step toStr e w) \<and> 0 < toggle_listeners (step toStr e w)"
proof (cases e)
  case Connect
  with assms show ?thesis by (simp add: connectedCallback_def)
next
  case Disconnect
  then show ?thesis by (simp add: disconnectedCallback_def removeEventListener_def)
next
  case (Toggle ns)
  with assms show ?thesis by auto
next
  case Resize
  with assms show ?thesis by (simp add: resize_event_def resizeListener_def)
next
  case (Advance d)
  show ?thesis
  proof (rule advance_three_cases [of toStr d w])
    assume "advance toStr d w = w\<lparr>now := now w + d\<rparr>"
    with assms Advance show ?thesis by simp
  next
    assume "advance toStr d w = w\<lparr>now := now w + d, timeout := None\<rparr>"
    with assms Advance show ?thesis by simp
  next
    assume "advance toStr d w = hidePopover toStr (w\<lparr>now := now w + d, timeout := None\<rparr>)"
    with assms Advance show ?thesis by auto
  qed
next
  case Idle
  with assms show ?thesis by (simp add: idle_callback_def)
next
  case (SetAttribute a)
  with assms show ?thesis by simp
next
  case (Layout r iw ih)
  with assms show ?thesis by simp
next
  case OpenCancelled
  with assms(2) show ?thesis by simp
next
  case PopoverRemoved
  with assms(2) show ?thesis by simp
qed

lemma run_keeps_listening_open:
  "resize_listening w \<longrightarrow> popover_open w \<and> 0 < toggle_listeners w \<Longrightarrow>
   list_all carried_out es \<Longrightarrow>
   resize_listening (run toStr es w)
     \<longrightarrow> popover_open (run toStr es w) \<and> 0 < toggle_listeners (run toStr es w)"
proof (induction es arbitrary: w)
  case Nil
  then show ?case by simp
next
  case (Cons e es)
  from Cons.prems have c: "carried_out e" and cs: "list_all carried_out es"
    by simp_all
  from Cons.prems(1) c have "resize_listening (step toStr e w)
           \<longrightarrow> popover_open (step toStr e w) \<and> 0 < toggle_listeners (step toStr e w)"
    by (rule step_keeps_listening_open)
  then show ?case
    using Cons.IH [of "step toStr e w"] cs by simp
qed

lemma step_registers_at_open_notice:
  assumes "resize_listening (step toStr e w)" and "\<not> resize_listening w"
  shows "e = Toggle ''open'' \<or> e = OpenCancelled"
proof (cases e)
  case Connect
  with assms show ?thesis by (simp add: connectedCallback_def Let_def split: if_splits)
next
  case Disconnect
  with assms show ?thesis by (simp add: disconnectedCallback_def removeEventListener_def)
next
  case (Toggle ns)
  with assms show ?thesis by (simp split: if_splits)
next
  case Resize
  with assms show ?thesis by (simp add: resize_event_def resizeListener_def)
next
  case (Advance d)
  show ?thesis
  proof (rule advance_three_cases [of toStr d w])
    assume "advance toStr d w = w\<lparr>now := now w + d\<rparr>"
    with assms Advance show ?thesis by simp
  next
    assume "advance toStr d w = w\<lparr>now := now w + d, timeout := None\<rparr>"
    with assms Advance show ?thesis by simp
  next
    assume "advance toStr d w = hidePopover toStr (w\<lparr>now := now w + d, timeout := None\<rparr>)"
    with assms Advance show ?thesis by (simp split: if_splits)
  qed
next
  case Idle
  with assms show ?thesis by (simp add: idle_callback_def split: if_splits)
next
  case (SetAttribute a)
  with assms show ?thesis by simp
next
  case (Layout r iw ih)
  with assms show ?thesis by simp
next
  case OpenCancelled
  then show ?thesis by simp
next
  case PopoverRemoved
  with assms show ?thesis by simp
qed

lemma resize_after_disconnect:
  "resize_event (disconnectedCallback w) = disconnectedCallback w"
  by (simp add: resize_event_def disconnectedCallback_def removeEventListener_def)

lemma fresh_scenario: "fresh scenario"
  by (simp add: fresh_def scenario_fields)

text \<open>
  C7, as the code has it: the resize listener can be registered while the popover is
  closed. The widget registers it inside the \<open>beforetoggle\<close> listener and removes it only
  at a later \<open>beforetoggle\<close>, at \<open>hidePopover\<close> or at teardown. When the popover
  element of the attached, opened widget is removed from the document, the platform closes
  it without dispatching \<open>beforetoggle\<close>, and the listener stays registered; when an
  opening is cancelled after the dispatch, the listener has been registered and the popover
  has never opened.
\<close>

theorem resize_listener_while_closed_counterexample:
  "resize_listening (run int_str [PopoverRemoved] (opened None))
   \<and> \<not> popover_open (run int_str [PopoverRemoved] (opened None))
   \<and> resize_listening (run int_str [Connect, OpenCancelled] scenario)
   \<and> \<not> popover_open (run int_str [Connect, OpenCancelled] scenario)"
  by (simp add: opened_eq connectedCallback_def scenario_fields)

text \<open>
  C7, amended. Through every history of a newly constructed instance: the resize listener
  becomes registered at no event but a notification of a transition to \<open>open\<close> (carried
  out or cancelled afterwards); a notification of any other new state, handled by the
  widget, leaves it not registered; and in a history in which every change of the
  popover's state is announced and carried out (no cancelled opening, no closing without
  dispatch) it is registered only if the popover is open. After \<open>disconnectedCallback\<close>,
  in whatever state it was called, the listener is not registered, and a \<open>resize\<close> event
  dispatched then changes nothing.
\<close>

theorem resize_listener_follows_notifications:
  assumes "fresh w"
  shows "(\<forall>es. list_all carried_out es \<and> resize_listening (run toStr es w)
              \<longrightarrow> popover_open (run toStr es w))
       \<and> (\<forall>es e. resize_listening (step toStr e (run toStr es w))
                \<and> \<not> resize_listening (run toStr es w)
              \<longrightarrow> e = Toggle ''open'' \<or> e = OpenCancelled)
       \<and> (\<forall>es ns. 0 < toggle_listeners (run toStr es w) \<and> ns \<noteq> ''open''
              \<longrightarrow> \<not> resize_listening (step toStr (Toggle ns) (run toStr es w)))
       \<and> (\<forall>es. \<not> resize_listening (run toStr (es @ [Disconnect]) w)
              \<and> run toStr (es @ [Disconnect, Resize]) w = run toStr (es @ [Disconnect]) w)"
proof -
  from assms have "resize_listening w \<longrightarrow> popover_open w \<and> 0 < toggle_listeners w"
    by (simp add: fresh_def)
  then have a: "popover_open (run toStr es w)"
    if "list_all carried_out es \<and> resize_listening (run toStr es w)" for es
    using run_keeps_listening_open [of w es toStr] that by blast
  have b: "e = Toggle ''open'' \<or> e = OpenCancelled"
    if "resize_listening (step toStr e (run toStr es w)) \<and> \<not> resize_listening (run toStr es w)"
    for es e
    using that step_registers_at_open_notice [of toStr e "run toStr es w"] by blast
  have c: "\<not> resize_listening (step toStr (Toggle ns) (run toStr es w))"
    if "0 < toggle_listeners (run toStr es w) \<and> ns \<noteq> ''open''" for es ns
    using that by simp
  have d: "\<not> resize_listening (run toStr (es @ [Disconnect]) w)" for es
    by (simp add: run_append disconnectedCallback_def removeEventListener_def)
  have e: "run toStr (es @ [Disconnect, Resize]) w = run toStr (es @ [Disconnect]) w" for es
    by (simp add: run_append resize_after_disconnect)
  show ?thesis
    using a b c d e by blast
qed

theorem resize_listener_follows_notifications_witness:
  "fresh scenario
   \<and> list_all carried_out [SetAttribute (Some ''true''), Connect, Toggle ''open'' :: int event]
   \<and> resize_listening (run int_str [SetAttribute (Some ''true''), Connect, Toggle ''open''] scenario)
   \<and> popover_open (run int_str [SetAttribute (Some ''true''), Connect, Toggle ''open''] scenario)
   \<and> 0 < toggle_listeners
           (run int_str [SetAttribute (Some ''true''), Connect, Toggle ''open''] scenario)
   \<and> \<not> resize_listening
         (step int_str (Toggle ''closed'')
            (run int_str [SetAttribute (Some ''true''), Connect, Toggle ''open''] scenario))
   \<and> \<not> resize_listening
         (run int_str ([SetAttribute (Some ''true''), Connect, Toggle ''open''] @ [Disconnect]) scenario)
   \<and> run int_str ([SetAttribute (Some ''true''), Connect, Toggle ''open''] @ [Disconnect, Resize])
         scenario
       = run int_str ([SetAttribute (Some ''true''), Connect, Toggle ''open''] @ [Disconnect]) scenario"
proof -
  let ?es = "[SetAttribute (Some ''true''), Connect, Toggle ''open''] :: int event list"
  note t = resize_listener_follows_notifications [OF fresh_scenario, of int_str]
  note t1 = t [THEN conjunct1, rule_format, of ?es]
  note t3 = t [THEN conjunct2, THEN conjunct2, THEN conjunct1, rule_format, of ?es "''closed''"]
  note t4 = t [THEN conjunct2, THEN conjunct2, THEN conjunct2, rule_format, of ?es]
  have c: "list_all carried_out ?es"
    by simp
  have l: "resize_listening (run int_str ?es scenario)"
    using opened_fields(5) [of "Some ''true''"] by (simp only: opened_def)
  have n: "0 < toggle_listeners (run int_str ?es scenario)"
    using opened_fields(6) [of "Some ''true''"] by (simp only: opened_def)
  have o: "popover_open (run int_str ?es scenario)"
    using c l by (intro t1 conjI)
  have q: "''closed'' \<noteq> ''open''" by simp
  have r: "\<not> resize_listening (step int_str (Toggle ''closed'') (run int_str ?es scenario))"
    using n q by (intro t3 conjI)
  from t4 have d: "\<not> resize_listening (run int_str (?es @ [Disconnect]) scenario)"
    and e: "run int_str (?es @ [Disconnect, Resize]) scenario
                  = run int_str (?es @ [Disconnect]) scenario"
    by (rule conjunct1, rule conjunct2)
  show ?thesis
    by (intro conjI fresh_scenario c l o n r d e)
qed

lemma toggle_no_listeners:
  "toggle_listeners w = 0 \<Longrightarrow> toggle toStr ns w = w\<lparr>popover_open := (ns = ''open'')\<rparr>"
  by (simp add: toggle_def dispatch_beforetoggle_def)

lemma step_without_popover:
  assumes "\<not> refs_popover w" and "toggle_listeners w = 0" and "\<not> resize_listening w"
    and "set (effects w) \<subseteq> {RequestIdleCallback, RemoveResizeListener}"
  shows "\<not> refs_popover (step toStr e w) \<and> toggle_listeners (step toStr e w) = 0
       \<and> \<not> resize_listening (step toStr e w) \<and> style (step toStr e w) = style w
       \<and> set (effects (step toStr e w)) \<subseteq> {RequestIdleCallback, RemoveResizeListener}"
proof (cases e)
  case Connect
  with assms show ?thesis by (simp add: connectedCallback_def)
next
  case Disconnect
  with assms show ?thesis by (simp add: disconnectedCallback_def removeEventListener_def)
next
  case (Toggle ns)
  with assms show ?thesis by (simp add: toggle_no_listeners)
next
  case Resize
  with assms show ?thesis by (simp add: resize_event_def)
next
  case (Advance d)
  have "resize_callback toStr (w\<lparr>now := now w + d, timeout := None\<rparr>)
          = w\<lparr>now := now w + d, timeout := None\<rparr>"
    using assms(1) by (intro resize_callback_idle) simp
  with advance_cases [of toStr d w] assms Advance show ?thesis
    by auto
next
  case Idle
  with assms show ?thesis by (simp add: idle_callback_def updatePosition_absent)
next
  case (SetAttribute a)
  with assms show ?thesis by simp
next
  case (Layout r iw ih)
  with assms show ?thesis by simp
next
  case OpenCancelled
  with assms show ?thesis by (simp add: dispatch_no_listeners)
next
  case PopoverRemoved
  with assms show ?thesis by simp
qed

lemma run_without_popover:
  "\<not> refs_popover w \<Longrightarrow> toggle_listeners w = 0 \<Longrightarrow> \<not> resize_listening w \<Longrightarrow>
   set (effects w) \<subseteq> {RequestIdleCallback, RemoveResizeListener} \<Longrightarrow>
   \<not> refs_popover (run toStr es w) \<and> toggle_listeners (run toStr es w) = 0
     \<and> \<not> resize_listening (run toStr es w) \<and> style (run toStr es w) = style w
     \<and> set (effects (run toStr es w)) \<subseteq> {RequestIdleCallback, RemoveResizeListener}"
proof (induction es arbitrary: w)
  case Nil
  then show ?case by simp
next
  case (Cons e es)
  from step_without_popover [OF Cons.prems, of toStr e]
  have s: "\<not> refs_popover (step toStr e w)" "toggle_listeners (step toStr e w) = 0"
    "\<not> resize_listening (step toStr e w)" "style (step toStr e w) = style w"
    "set (effects (step toStr e w)) \<subseteq> {RequestIdleCallback, RemoveResizeListener}"
    by blast+
  from Cons.IH [OF s(1) s(2) s(3) s(5)] s(4) show ?case by simp
qed

text \<open>
  C10. With the popover reference absent, \<open>connectedCallback\<close> on a newly constructed
  instance installs no \<open>beforetoggle\<close> listener and only requests the idle callback, and
  that callback's recomputation changes nothing. Through any later history no
  \<open>beforetoggle\<close> listener exists, the resize listener is never registered, no property
  is written, the only calls made are idle requests and the removal in
  \<open>disconnectedCallback\<close>, and every transition of a popover changes nothing of the
  widget: it only changes the popover's own state.
\<close>

theorem absent_popover_never_listens:
  assumes "\<not> refs_popover w" and "fresh w"
  shows "connectedCallback w
           = w\<lparr>idle_queue := Suc (idle_queue w), effects := effects w @ [RequestIdleCallback]\<rparr>
       \<and> idle_callback toStr (connectedCallback w)
           = w\<lparr>effects := effects w @ [RequestIdleCallback]\<rparr>
       \<and> (\<forall>es. toggle_listeners (run toStr es (connectedCallback w)) = 0
              \<and> \<not> resize_listening (run toStr es (connectedCallback w))
              \<and> style (run toStr es (connectedCallback w)) = style w
              \<and> set (effects (run toStr es (connectedCallback w)))
                  \<subseteq> {RequestIdleCallback, RemoveResizeListener})
       \<and> (\<forall>es ns. toggle toStr ns (run toStr es (connectedCallback w))
              = (run toStr es (connectedCallback w))\<lparr>popover_open := (ns = ''open'')\<rparr>)"
proof -
  let ?c = "connectedCallback w"
  have c: "?c = w\<lparr>idle_queue := Suc (idle_queue w), effects := effects w @ [RequestIdleCallback]\<rparr>"
    using assms(1) by (simp add: connectedCallback_def)
  have i: "idle_callback toStr ?c = w\<lparr>effects := effects w @ [RequestIdleCallback]\<rparr>"
    using assms(1) by (simp add: c idle_callback_def updatePosition_absent)
  have pre: "\<not> refs_popover ?c" "toggle_listeners ?c = 0" "\<not> resize_listening ?c"
    "set (effects ?c) \<subseteq> {RequestIdleCallback, RemoveResizeListener}"
    using assms by (simp_all add: c fresh_def)
  have inv: "\<not> refs_popover (run toStr es ?c) \<and> toggle_listeners (run toStr es ?c) = 0
     \<and> \<not> resize_listening (run toStr es ?c) \<and> style (run toStr es ?c) = style ?c
     \<and> set (effects (run toStr es ?c)) \<subseteq> {RequestIdleCallback, RemoveResizeListener}" for es
    using pre by (rule run_without_popover)
  have st: "style ?c = style w" by (simp add: c)
  have tg: "toggle toStr ns (run toStr es ?c) = (run toStr es ?c)\<lparr>popover_open := (ns = ''open'')\<rparr>"
    for es ns
    using inv [of es] by (intro toggle_no_listeners) blast
  show ?thesis
    using c i inv st tg by metis
qed

theorem absent_popover_never_listens_witness:
  "\<not> refs_popover (scenario\<lparr>refs_popover := False\<rparr>) \<and> fresh (scenario\<lparr>refs_popover := False\<rparr>)
   \<and> connectedCallback (scenario\<lparr>refs_popover := False\<rparr>)
       = scenario\<lparr>refs_popover := False, idle_queue := 1, effects := [RequestIdleCallback]\<rparr>
   \<and> idle_callback int_str (connectedCallback (scenario\<lparr>refs_popover := False\<rparr>))
       = scenario\<lparr>refs_popover := False, effects := [RequestIdleCallback]\<rparr>
   \<and> \<not> resize_listening
         (run int_str [Toggle ''open'', Resize, Advance 100, Toggle ''closed'', Idle]
            (connectedCallback (scenario\<lparr>refs_popover := False\<rparr>)))
   \<and> style (run int_str [Toggle ''open'', Resize, Advance 100, Toggle ''closed'', Idle]
            (connectedCallback (scenario\<lparr>refs_popover := False\<rparr>))) = Map.empty
   \<and> toggle int_str ''open''
         (run int_str [Toggle ''open'', Resize, Advance 100, Toggle ''closed'', Idle]
            (connectedCallback (scenario\<lparr>refs_popover := False\<rparr>)))
       = (run int_str [Toggle ''open'', Resize, Advance 100, Toggle ''closed'', Idle]
            (connectedCallback (scenario\<lparr>refs_popover := False\<rparr>)))\<lparr>popover_open := True\<rparr>"
proof -
  let ?w = "scenario\<lparr>refs_popover := False\<rparr>"
  let ?es = "[Toggle ''open'', Resize, Advance 100, Toggle ''closed'', Idle]"
  have a: "\<not> refs_popover ?w" and f: "fresh ?w"
    by (simp_all add: fresh_def scenario_fields)
  note t = absent_popover_never_listens [OF a f, of int_str]
  from t have c: "connectedCallback ?w
           = ?w\<lparr>idle_queue := Suc (idle_queue ?w), effects := effects ?w @ [RequestIdleCallback]\<rparr>"
    and i: "idle_callback int_str (connectedCallback ?w)
           = ?w\<lparr>effects := effects ?w @ [RequestIdleCallback]\<rparr>"
    by blast+
  from t have "\<forall>es. toggle_listeners (run int_str es (connectedCallback ?w)) = 0
              \<and> \<not> resize_listening (run int_str es (connectedCallback ?w))
              \<and> style (run int_str es (connectedCallback ?w)) = style ?w
              \<and> set (effects (run int_str es (connectedCallback ?w)))
                  \<subseteq> {RequestIdleCallback, RemoveResizeListener}"
    by blast
  then have r: "\<not> resize_listening (run int_str ?es (connectedCallback ?w))"
    "style (run int_str ?es (connectedCallback ?w)) = style ?w"
    by blast+
  from t have "\<forall>es ns. toggle int_str ns (run int_str es (connectedCallback ?w))
              = (run int_str es (connectedCallback ?w))\<lparr>popover_open := (ns = ''open'')\<rparr>"
    by blast
  then have g: "toggle int_str ''open'' (run int_str ?es (connectedCallback ?w))
              = (run int_str ?es (connectedCallback ?w))\<lparr>popover_open := (''open'' = ''open'')\<rparr>"
    by blast
  have c': "connectedCallback ?w = ?w\<lparr>idle_queue := 1, effects := [RequestIdleCallback]\<rparr>"
    by (simp add: c scenario_fields)
  have i': "idle_callback int_str (connectedCallback ?w) = ?w\<lparr>effects := [RequestIdleCallback]\<rparr>"
    by (simp add: i scenario_fields)
  have s': "style (run int_str ?es (connectedCallback ?w)) = Map.empty"
    by (rule trans [OF r(2)]) (simp add: scenario_fields)
  have g': "toggle int_str ''open'' (run int_str ?es (connectedCallback ?w))
              = (run int_str ?es (connectedCallback ?w))\<lparr>popover_open := True\<rparr>"
    using g by simp
  show ?thesis
    using a f c' i' r(1) s' g' by blast
qed

text \<open>
  C9, at the input where the code departs from it. The widget is attached and the popover
  opened with no \<open>data-close-on-resize\<close> attribute; then the attribute is added the way
  the class's documentation writes it, without a value, so that
  \<open>this.dataset.closeOnResize\<close> is the empty string; a \<open>resize\<close> event follows and
  100 ms pass. The callback does read the attribute when it fires, but it tests the value
  for truthiness: the popover stays open and no \<open>hidePopover\<close> call is made, exactly as
  when the attribute is not added. Added with the value \<open>true\<close>, it closes the popover.
\<close>

theorem empty_attribute_does_not_close:
  "popover_open (opened None) \<and> resize_listening (opened None)
   \<and> run int_str [SetAttribute (Some ''''), Resize, Advance 100] (opened None)
       = (opened (Some ''''))\<lparr>now := 100\<rparr>
   \<and> popover_open (run int_str [SetAttribute (Some ''''), Resize, Advance 100] (opened None))
   \<and> HidePopover
       \<notin> set (effects (run int_str [SetAttribute (Some ''''), Resize, Advance 100] (opened None)))
   \<and> run int_str [Resize, Advance 100] (opened None) = (opened None)\<lparr>now := 100\<rparr>
   \<and> \<not> popover_open (run int_str [SetAttribute (Some ''true''), Resize, Advance 100] (opened None))"
  by (simp add: opened_eq resize_event_def resizeListener_def advance_def resize_callback_def
      truthy_def)

end
